theory Spec2Isabelle
  imports Main "HOL-Library.AList"
begin

section \<open>Exceptions and messages\<close>

text \<open>
  The development embeds \<^verbatim>\<open>rocon_interactions/manager.py\<close> (class
  \<^verbatim>\<open>InteractionsManager\<close>, Python 2). Every exception the code can raise on its
  input data is a value of \<open>exn\<close>; a function that may raise returns \<open>exn + 'a\<close>.
\<close>

datatype exn =
    AttributeError string
  | TypeError string
  | ValueError string
  | KeyError string

text \<open>\<^verbatim>\<open>concert_msgs.RemoconStatus\<close>, the fields the manager reads.\<close>

record remocon_status =
  uuid :: string
  platform_info :: string
  running_app :: bool
  app_name :: string

text \<open>
  Modelled from the spec: \<^verbatim>\<open>RemoconMonitor\<close> (\<^verbatim>\<open>remocon_monitor.py\<close> is not part of
  the sources). A monitor is built from a channel identifier and a status-update sink, and
  its status is unknown (\<open>None\<close>) until the first update arrives. The manager reads
  \<^verbatim>\<open>remocon.name\<close> and \<^verbatim>\<open>remocon.status\<close> and calls \<^verbatim>\<open>unregister()\<close>.
\<close>

record remocon_monitor =
  name :: string
  status :: "remocon_status option"

definition RemoconMonitor :: "string \<Rightarrow> remocon_monitor" where
  "RemoconMonitor remocon_topic = \<lparr>name = remocon_topic, status = None\<rparr>"

text \<open>
  \<^verbatim>\<open>concert_msgs.InteractiveClient\<close> and \<^verbatim>\<open>concert_msgs.InteractiveClients\<close>. A fresh
  \<^verbatim>\<open>InteractiveClient()\<close> has the empty string as \<^verbatim>\<open>app_name\<close>. The type \<open>'u\<close> is
  the identifier message that \<^verbatim>\<open>unique_id.toMsg(uuid.UUID(...))\<close> builds.
\<close>

record 'u interactive_client =
  ic_name :: string
  ic_id :: 'u
  ic_platform_info :: string
  ic_app_name :: string

record 'u interactive_clients =
  running_clients :: "'u interactive_client list"
  idle_clients :: "'u interactive_client list"

text \<open>
  What a call leaves behind outside the manager object: a publication on
  \<^verbatim>\<open>~interactive_clients\<close>, a subscription made or released by a monitor, a log line, the
  sleep that ends one round of the watch loop.
\<close>

datatype 'u event =
    Publish "'u interactive_clients"
  | Subscribe string
  | Unregister string
  | Loginfo_new_remocon string
  | Loginfo_remocon_left string
  | Logerr_master_error
  | Logerr_master_failure
  | Wallsleep

fun publications :: "'u event list \<Rightarrow> 'u interactive_clients list" where
  "publications [] = []"
| "publications (Publish msg # evs) = msg # publications evs"
| "publications (_ # evs) = publications evs"

section \<open>The manager object\<close>

text \<open>\<^verbatim>\<open>concert_msgs.RemoconApp\<close> entries, requests and responses of \<^verbatim>\<open>request_interaction\<close>.\<close>

record remocon_app =
  ra_name :: string
  ra_namespace :: string
  ra_max :: int

record interaction =
  i_display_name :: string
  i_name :: string
  i_role :: string
  i_namespace :: string
  i_max :: int

text \<open>
  The slots of \<^verbatim>\<open>InteractionsManager\<close> that the modelled methods touch:
  \<^verbatim>\<open>interactions_table\<close> and \<^verbatim>\<open>_remocon_monitors\<close>, a dictionary from topic name to
  monitor. The dictionary is an association list with one entry for each key; the order of
  the list stands for the iteration order of the Python 2 dictionary, on which no theorem
  below depends.
\<close>

record manager =
  interactions_table :: "interaction list"
  remocon_monitors :: "(string \<times> remocon_monitor) list"

section \<open>Publishing the interactive clients\<close>

text \<open>
  \<^verbatim>\<open>_ros_publish_interactive_clients\<close>, lines 137 to 150. \<open>UUID\<close> is the library
  constructor \<^verbatim>\<open>uuid.UUID\<close> followed by \<^verbatim>\<open>unique_id.toMsg\<close>: it raises
  \<^verbatim>\<open>ValueError\<close> on a badly formed string, here \<open>None\<close>. The result is the message
  handed to the publisher.
\<close>

fun publish_loop ::
  "(string \<Rightarrow> 'u option) \<Rightarrow> remocon_monitor list \<Rightarrow> 'u interactive_clients
     \<Rightarrow> exn + 'u interactive_clients" where
  "publish_loop UUID [] interactive_clients = Inr interactive_clients"
| "publish_loop UUID (remocon # rest) interactive_clients =
     (case status remocon of
        None \<Rightarrow> publish_loop UUID rest interactive_clients
      | Some st \<Rightarrow>
          (case UUID (uuid st) of
             None \<Rightarrow> Inl (ValueError ''badly formed hexadecimal UUID string'')
           | Some u \<Rightarrow>
               (let interactive_client =
                      \<lparr>ic_name = name remocon, ic_id = u,
                       ic_platform_info = platform_info st, ic_app_name = ''''\<rparr>
                in if running_app st
                   then publish_loop UUID rest
                          (interactive_clients\<lparr>running_clients :=
                             running_clients interactive_clients
                               @ [interactive_client\<lparr>ic_app_name := app_name st\<rparr>]\<rparr>)
                   else publish_loop UUID rest
                          (interactive_clients\<lparr>idle_clients :=
                             idle_clients interactive_clients @ [interactive_client]\<rparr>))))"

definition ros_publish_interactive_clients ::
  "(string \<Rightarrow> 'u option) \<Rightarrow> manager \<Rightarrow> exn + 'u interactive_clients" where
  "ros_publish_interactive_clients UUID self =
     publish_loop UUID (map snd (remocon_monitors self))
       \<lparr>running_clients = [], idle_clients = []\<rparr>"

section \<open>The watch loop\<close>

text \<open>
  What \<^verbatim>\<open>master.getPublishedTopics\<close> gives in one round: the list of
  \<^verbatim>\<open>[topic_name, topic_type]\<close> pairs, or one of the two exceptions of
  \<^verbatim>\<open>rosgraph.masterapi\<close> that \<^verbatim>\<open>spin\<close> catches.
\<close>

datatype master_reply =
    Topics "(string \<times> string) list"
  | Master_Error
  | Master_Failure

text \<open>Line 75: \<^verbatim>\<open>diff = lambda l1, l2: [x for x in l1 if x not in l2]\<close>.\<close>

definition diff :: "'a list \<Rightarrow> 'a list \<Rightarrow> 'a list" where
  "diff l1 l2 = filter (\<lambda>x. x \<notin> set l2) l1"

text \<open>
  Lines 81 to 84, the loop over the new topics: store a fresh monitor under the topic,
  publish, log. An exception of the publication leaves the loop and \<^verbatim>\<open>spin\<close>.
\<close>

fun new_loop ::
  "(string \<Rightarrow> 'u option) \<Rightarrow> string list \<Rightarrow> manager \<Rightarrow> exn + manager \<times> 'u event list" where
  "new_loop UUID [] self = Inr (self, [])"
| "new_loop UUID (remocon_topic # rest) self =
     (let self1 = self\<lparr>remocon_monitors :=
                    AList.update remocon_topic (RemoconMonitor remocon_topic)
                      (remocon_monitors self)\<rparr>
      in case ros_publish_interactive_clients UUID self1 of
           Inl e \<Rightarrow> Inl e
         | Inr msg \<Rightarrow>
             (case new_loop UUID rest self1 of
                Inl e \<Rightarrow> Inl e
              | Inr (self2, evs) \<Rightarrow>
                  Inr (self2, Subscribe remocon_topic # Publish msg
                                # Loginfo_new_remocon remocon_topic # evs)))"

text \<open>
  Lines 85 to 89, the loop over the lost topics: look the monitor up (a missing key raises
  \<^verbatim>\<open>KeyError\<close>), unregister it, delete the entry, publish, log.
\<close>

fun lost_loop ::
  "(string \<Rightarrow> 'u option) \<Rightarrow> string list \<Rightarrow> manager \<Rightarrow> exn + manager \<times> 'u event list" where
  "lost_loop UUID [] self = Inr (self, [])"
| "lost_loop UUID (remocon_topic # rest) self =
     (case map_of (remocon_monitors self) remocon_topic of
        None \<Rightarrow> Inl (KeyError remocon_topic)
      | Some remocon \<Rightarrow>
          (let self1 = self\<lparr>remocon_monitors :=
                         AList.delete remocon_topic (remocon_monitors self)\<rparr>
           in case ros_publish_interactive_clients UUID self1 of
                Inl e \<Rightarrow> Inl e
              | Inr msg \<Rightarrow>
                  (case lost_loop UUID rest self1 of
                     Inl e \<Rightarrow> Inl e
                   | Inr (self2, evs) \<Rightarrow>
                       Inr (self2, Unregister remocon_topic # Publish msg
                                     # Loginfo_remocon_left remocon_topic # evs))))"

text \<open>
  One round of the \<^verbatim>\<open>while\<close> loop of \<^verbatim>\<open>spin\<close>, lines 74 to 93, without the final
  sleep. Both difference lists are computed from the dictionary as it is before the first
  loop runs.
\<close>

definition spin_once ::
  "(string \<Rightarrow> 'u option) \<Rightarrow> master_reply \<Rightarrow> manager \<Rightarrow> exn + manager \<times> 'u event list" where
  "spin_once UUID reply self =
     (case reply of
        Topics published \<Rightarrow>
          (let remocon_topics = map fst published;
               new_remocon_topics = diff remocon_topics (map fst (remocon_monitors self));
               lost_remocon_topics = diff (map fst (remocon_monitors self)) remocon_topics
           in case new_loop UUID new_remocon_topics self of
                Inl e \<Rightarrow> Inl e
              | Inr (self1, evs1) \<Rightarrow>
                  (case lost_loop UUID lost_remocon_topics self1 of
                     Inl e \<Rightarrow> Inl e
                   | Inr (self2, evs2) \<Rightarrow> Inr (self2, evs1 @ evs2)))
      | Master_Error \<Rightarrow> Inr (self, [Logerr_master_error])
      | Master_Failure \<Rightarrow> Inr (self, [Logerr_master_failure]))"

text \<open>
  \<^verbatim>\<open>spin\<close>, lines 73 to 94. The loop runs until \<^verbatim>\<open>rospy.is_shutdown()\<close>; the list
  holds the master's reply of each round that runs before the shutdown.
\<close>

fun spin ::
  "(string \<Rightarrow> 'u option) \<Rightarrow> master_reply list \<Rightarrow> manager \<Rightarrow> exn + manager \<times> 'u event list" where
  "spin UUID [] self = Inr (self, [])"
| "spin UUID (reply # replies) self =
     (case spin_once UUID reply self of
        Inl e \<Rightarrow> Inl e
      | Inr (self1, evs1) \<Rightarrow>
          (case spin UUID replies self1 of
             Inl e \<Rightarrow> Inl e
           | Inr (self2, evs2) \<Rightarrow> Inr (self2, evs1 @ Wallsleep # evs2)))"

section \<open>Setting interactions\<close>

text \<open>
  Modelled from the spec: \<^verbatim>\<open>InteractionsTable.load\<close> and \<^verbatim>\<open>unload\<close>
  (\<^verbatim>\<open>interactions_table.py\<close> is not part of the sources). \<open>load\<close> partitions the
  definitions by validity, inserts the accepted ones keyed by their identity (an entry of
  the same identity is overwritten) and returns the accepted and the rejected ones;
  \<open>unload\<close> removes the entries whose identity matches and returns them. Which
  definitions are valid is the loader's business: \<open>valid\<close> is a parameter.
\<close>

definition identity :: "interaction \<Rightarrow> string \<times> string \<times> string" where
  "identity i = (i_name i, i_role i, i_namespace i)"

definition table_load ::
  "(interaction \<Rightarrow> bool) \<Rightarrow> interaction list \<Rightarrow> interaction list
     \<Rightarrow> interaction list \<times> interaction list \<times> interaction list" where
  "table_load valid table msgs =
     (let accepted = filter valid msgs;
          rejected = filter (\<lambda>i. \<not> valid i) msgs
      in (filter (\<lambda>e. identity e \<notin> set (map identity accepted)) table @ accepted,
          accepted, rejected))"

definition table_unload ::
  "interaction list \<Rightarrow> interaction list \<Rightarrow> interaction list \<times> interaction list" where
  "table_unload table msgs =
     (filter (\<lambda>e. identity e \<notin> set (map identity msgs)) table,
      filter (\<lambda>e. identity e \<in> set (map identity msgs)) table)"

record set_interactions_request =
  interactions :: "interaction list"
  load :: bool

datatype log =
    Loginfo_loading interaction
  | Loginfo_unloading interaction

text \<open>
  \<^verbatim>\<open>_ros_service_set_interactions\<close>, lines 182 to 203. Line 196 is
  \<^verbatim>\<open>rospy.logwarn("... %s [%s-%s-%s]" (i.display_name, ...))\<close>: the format string is
  called as a function, so the first round of the loop over the rejected definitions raises
  \<^verbatim>\<open>TypeError\<close> (the table has taken the accepted definitions by then). The
  response carries only \<^verbatim>\<open>result\<close>.
\<close>

definition ros_service_set_interactions ::
  "(interaction \<Rightarrow> bool) \<Rightarrow> manager \<Rightarrow> set_interactions_request
     \<Rightarrow> exn + manager \<times> log list \<times> bool" where
  "ros_service_set_interactions valid self request =
     (if load request
      then (case table_load valid (interactions_table self) (interactions request) of
              (table, new_interactions, invalid_interactions) \<Rightarrow>
                (case invalid_interactions of
                   [] \<Rightarrow>
                     Inr (self\<lparr>interactions_table := table\<rparr>,
                          map Loginfo_loading new_interactions, True)
                 | i # _ \<Rightarrow> Inl (TypeError ''str object is not callable'')))
      else (case table_unload (interactions_table self) (interactions request) of
              (table, removed_interactions) \<Rightarrow>
                Inr (self\<lparr>interactions_table := table\<rparr>,
                     map Loginfo_unloading removed_interactions, True)))"

section \<open>Requesting an interaction\<close>

record request_interaction_request =
  role :: string
  application :: string
  namespace :: string

datatype error_code = SUCCESS | ROLE_APP_UNAVAILABLE | ROLE_APP_QUOTA_REACHED

datatype message = No_message | MSG_ROLE_APP_UNAVAILABLE | MSG_ROLE_APP_QUOTA_REACHED

record request_interaction_response =
  result :: bool
  error_code :: error_code
  message :: message

text \<open>
  Lines 211 to 217, the loop over the applications of the requested role. It ends in one
  of three ways: \<^verbatim>\<open>return response\<close> at a match whose \<^verbatim>\<open>max\<close> is 0, \<^verbatim>\<open>break\<close>
  with \<^verbatim>\<open>maximum_quota\<close> set at any other match, or exhaustion with
  \<^verbatim>\<open>maximum_quota\<close> still \<^verbatim>\<open>None\<close>.
\<close>

datatype quota_search = Return_response | Maximum_quota int | Maximum_quota_None

fun app_loop :: "remocon_app list \<Rightarrow> request_interaction_request \<Rightarrow> quota_search" where
  "app_loop [] request = Maximum_quota_None"
| "app_loop (app # rest) request =
     (if ra_name app = application request \<and> ra_namespace app = namespace request
      then (if ra_max app = 0 then Return_response else Maximum_quota (ra_max app))
      else app_loop rest request)"

text \<open>Lines 219 to 224, the count of the monitors that report the requested application.\<close>

fun count_loop :: "remocon_monitor list \<Rightarrow> request_interaction_request \<Rightarrow> nat \<Rightarrow> nat" where
  "count_loop [] request count = count"
| "count_loop (remocon_monitor # rest) request count =
     (case status remocon_monitor of
        None \<Rightarrow> count_loop rest request count
      | Some st \<Rightarrow>
          (if running_app st
           then (if app_name st = application request
                 then count_loop rest request (count + 1)
                 else count_loop rest request count)
           else count_loop rest request count))"

text \<open>
  Line 225 is \<^verbatim>\<open>if count < max:\<close>. No variable \<^verbatim>\<open>max\<close> is bound in the method
  (the quota is \<^verbatim>\<open>maximum_quota\<close>), so the name is the builtin function. The sources are
  Python 2 (\<^verbatim>\<open>iteritems\<close>, implicit relative imports), where objects of different
  types are ordered: two integers by their values, and a number before every object that
  is not a number. (Two functions are ordered by their addresses, which the model leaves
  open.)
\<close>

datatype pyobject = PyInt int | PyBuiltinFunction string

fun py2_lt :: "pyobject \<Rightarrow> pyobject \<Rightarrow> bool" where
  "py2_lt (PyInt a) (PyInt b) = (a < b)"
| "py2_lt (PyInt a) (PyBuiltinFunction f) = True"
| "py2_lt (PyBuiltinFunction f) (PyInt b) = False"

text \<open>
  Lines 206 to 234, given the value of \<^verbatim>\<open>self.role_and_app_table\<close>, a dictionary from
  role to list of applications.
\<close>

definition request_interaction_body ::
  "(string \<rightharpoonup> remocon_app list) \<Rightarrow> manager \<Rightarrow> request_interaction_request
     \<Rightarrow> request_interaction_response" where
  "request_interaction_body role_and_app_table self request =
     (let response = \<lparr>result = True, error_code = SUCCESS, message = No_message\<rparr>
      in case (case role_and_app_table (role request) of
                 None \<Rightarrow> Maximum_quota_None
               | Some apps \<Rightarrow> app_loop apps request) of
           Return_response \<Rightarrow> response
         | Maximum_quota maximum_quota \<Rightarrow>
             (if py2_lt (PyInt (int (count_loop (map snd (remocon_monitors self)) request 0)))
                        (PyBuiltinFunction ''max'')
              then response
              else response\<lparr>error_code := ROLE_APP_QUOTA_REACHED,
                            message := MSG_ROLE_APP_QUOTA_REACHED, result := False\<rparr>)
         | Maximum_quota_None \<Rightarrow>
             response\<lparr>error_code := ROLE_APP_UNAVAILABLE,
                      message := MSG_ROLE_APP_UNAVAILABLE, result := False\<rparr>)"

text \<open>
  The class fixes its attributes with \<^verbatim>\<open>__slots__\<close>, and \<^verbatim>\<open>role_and_app_table\<close> is
  not one of them: no instance can hold such an attribute, and reading it on line 210
  raises \<^verbatim>\<open>AttributeError\<close>.
\<close>

definition slots :: "string list" where
  "slots = [''interactions_table'', ''publishers'', ''parameters'', ''services'', ''spin'',
            ''platform_info'', ''_watch_loop_period'', ''_remocon_monitors'']"

definition getattr_role_and_app_table :: "manager \<Rightarrow> exn + (string \<rightharpoonup> remocon_app list)" where
  "getattr_role_and_app_table self =
     Inl (AttributeError ''role_and_app_table'')"

text \<open>\<^verbatim>\<open>_ros_service_request_interaction\<close>, lines 205 to 234.\<close>

definition ros_service_request_interaction ::
  "manager \<Rightarrow> request_interaction_request \<Rightarrow> exn + request_interaction_response" where
  "ros_service_request_interaction self request =
     (case getattr_role_and_app_table self of
        Inl e \<Rightarrow> Inl e
      | Inr role_and_app_table \<Rightarrow>
          Inr (request_interaction_body role_and_app_table self request))"

section \<open>Notions used in the statements\<close>

text \<open>A monitor reports a running application, or reports that it runs none.\<close>

definition reports_running :: "remocon_monitor \<Rightarrow> bool" where
  "reports_running m = (case status m of None \<Rightarrow> False | Some st \<Rightarrow> running_app st)"

definition reports_idle :: "remocon_monitor \<Rightarrow> bool" where
  "reports_idle m = (case status m of None \<Rightarrow> False | Some st \<Rightarrow> \<not> running_app st)"

text \<open>Every status that a monitor of the manager holds carries an identifier that parses.\<close>

definition uuids_well_formed :: "(string \<Rightarrow> 'u option) \<Rightarrow> manager \<Rightarrow> bool" where
  "uuids_well_formed UUID self =
     (\<forall>m \<in> set (map snd (remocon_monitors self)).
        \<forall>st. status m = Some st \<longrightarrow> UUID (uuid st) \<noteq> None)"

text \<open>
  An instance of the identifier constructor, used only for the evaluations at concrete
  inputs. It covers two of the forms that \<^verbatim>\<open>uuid.UUID\<close> reads, 32 hexadecimal digits
  with or without hyphens, and gives the digits as the identifier; every other string it
  rejects, also the forms with braces or a \<^verbatim>\<open>urn:uuid:\<close> prefix that the library
  accepts. No theorem about an arbitrary \<open>UUID\<close> depends on it.
\<close>

definition hex_digit :: "char \<Rightarrow> bool" where
  "hex_digit c = (c \<in> set ''0123456789abcdefABCDEF'')"

definition UUID32 :: "string \<Rightarrow> string option" where
  "UUID32 hex =
     (let digits = filter (\<lambda>c. c \<noteq> CHR ''-'') hex
      in if length digits = 32 \<and> list_all hex_digit digits then Some digits else None)"

section \<open>The two loops of a round\<close>

lemma publications_append: "publications (xs @ ys) = publications xs @ publications ys"
  by (induction xs rule: publications.induct) simp_all

lemma set_diff: "set (diff l1 l2) = set l1 - set l2"
  by (auto simp: diff_def)

lemma diff_Nil_iff: "diff l1 l2 = [] \<longleftrightarrow> set l1 \<subseteq> set l2"
  by (auto simp: diff_def filter_empty_conv)

lemma new_loop_map_of:
  "new_loop UUID ts self = Inr (self', evs) \<Longrightarrow>
     map_of (remocon_monitors self') t =
       (if t \<in> set ts then Some (RemoconMonitor t) else map_of (remocon_monitors self) t)"
proof (induction ts arbitrary: self self' evs)
  case Nil
  then show ?case by simp
next
  case (Cons a ts)
  then show ?case
    by (auto simp: Let_def update_conv' split: sum.splits prod.splits if_splits)
qed

lemma new_loop_table:
  "new_loop UUID ts self = Inr (self', evs) \<Longrightarrow> interactions_table self' = interactions_table self"
  by (induction ts arbitrary: self self' evs)
     (auto simp: Let_def split: sum.splits prod.splits)

lemma new_loop_publications:
  "new_loop UUID ts self = Inr (self', evs) \<Longrightarrow> length (publications evs) = length ts"
  by (induction ts arbitrary: self self' evs)
     (auto simp: Let_def split: sum.splits prod.splits)

lemma new_loop_subscribe:
  "new_loop UUID ts self = Inr (self', evs) \<Longrightarrow> t \<in> set ts \<Longrightarrow> Subscribe t \<in> set evs"
  by (induction ts arbitrary: self self' evs)
     (auto simp: Let_def split: sum.splits prod.splits)

lemma new_loop_distinct:
  "new_loop UUID ts self = Inr (self', evs) \<Longrightarrow> distinct (map fst (remocon_monitors self))
     \<Longrightarrow> distinct (map fst (remocon_monitors self'))"
  by (induction ts arbitrary: self self' evs)
     (auto simp: Let_def distinct_update split: sum.splits prod.splits)

lemma lost_loop_map_of:
  "lost_loop UUID ts self = Inr (self', evs) \<Longrightarrow>
     map_of (remocon_monitors self') t =
       (if t \<in> set ts then None else map_of (remocon_monitors self) t)"
proof (induction ts arbitrary: self self' evs)
  case Nil
  then show ?case by simp
next
  case (Cons a ts)
  then show ?case
    by (auto simp: Let_def delete_conv' split: sum.splits prod.splits if_splits option.splits)
qed

lemma lost_loop_table:
  "lost_loop UUID ts self = Inr (self', evs) \<Longrightarrow> interactions_table self' = interactions_table self"
  by (induction ts arbitrary: self self' evs)
     (auto simp: Let_def split: sum.splits prod.splits option.splits)

lemma lost_loop_publications:
  "lost_loop UUID ts self = Inr (self', evs) \<Longrightarrow> length (publications evs) = length ts"
  by (induction ts arbitrary: self self' evs)
     (auto simp: Let_def split: sum.splits prod.splits option.splits)

lemma lost_loop_unregister:
  "lost_loop UUID ts self = Inr (self', evs) \<Longrightarrow> t \<in> set ts \<Longrightarrow> Unregister t \<in> set evs"
  by (induction ts arbitrary: self self' evs)
     (auto simp: Let_def split: sum.splits prod.splits option.splits)

lemma lost_loop_distinct:
  "lost_loop UUID ts self = Inr (self', evs) \<Longrightarrow> distinct (map fst (remocon_monitors self))
     \<Longrightarrow> distinct (map fst (remocon_monitors self'))"
  by (induction ts arbitrary: self self' evs)
     (auto simp: Let_def distinct_delete split: sum.splits prod.splits option.splits)

lemma keys_map_of: "set (map fst al) = dom (map_of al)"
  by (simp add: dom_map_of_conv_image_fst)

section \<open>The published message\<close>

lemma publish_loop_running:
  "publish_loop UUID ms acc = Inr msg \<Longrightarrow>
   set (running_clients msg) = set (running_clients acc) \<union>
     {\<lparr>ic_name = name m, ic_id = u, ic_platform_info = platform_info st,
       ic_app_name = app_name st\<rparr> | m st u.
       m \<in> set ms \<and> status m = Some st \<and> running_app st \<and> UUID (uuid st) = Some u}"
proof (induction ms arbitrary: acc)
  case Nil
  then show ?case by simp
next
  case (Cons a ms)
  show ?case
  proof (cases "status a")
    case None
    with Cons show ?thesis by auto
  next
    case (Some st)
    with Cons.prems obtain u where u: "UUID (uuid st) = Some u"
      by (auto split: option.splits)
    show ?thesis
    proof (cases "running_app st")
      case True
      with Cons.prems Some u have
        "publish_loop UUID ms (acc\<lparr>running_clients := running_clients acc @
           [\<lparr>ic_name = name a, ic_id = u, ic_platform_info = platform_info st,
             ic_app_name = app_name st\<rparr>]\<rparr>) = Inr msg"
        by simp
      from Cons.IH [OF this] Some u True show ?thesis by auto
    next
      case False
      with Cons.prems Some u have
        "publish_loop UUID ms (acc\<lparr>idle_clients := idle_clients acc @
           [\<lparr>ic_name = name a, ic_id = u, ic_platform_info = platform_info st,
             ic_app_name = ''''\<rparr>]\<rparr>) = Inr msg"
        by simp
      from Cons.IH [OF this] Some u False show ?thesis by auto
    qed
  qed
qed

lemma publish_loop_idle:
  "publish_loop UUID ms acc = Inr msg \<Longrightarrow>
   set (idle_clients msg) = set (idle_clients acc) \<union>
     {\<lparr>ic_name = name m, ic_id = u, ic_platform_info = platform_info st,
       ic_app_name = ''''\<rparr> | m st u.
       m \<in> set ms \<and> status m = Some st \<and> \<not> running_app st \<and> UUID (uuid st) = Some u}"
proof (induction ms arbitrary: acc)
  case Nil
  then show ?case by simp
next
  case (Cons a ms)
  show ?case
  proof (cases "status a")
    case None
    with Cons show ?thesis by auto
  next
    case (Some st)
    with Cons.prems obtain u where u: "UUID (uuid st) = Some u"
      by (auto split: option.splits)
    show ?thesis
    proof (cases "running_app st")
      case True
      with Cons.prems Some u have
        "publish_loop UUID ms (acc\<lparr>running_clients := running_clients acc @
           [\<lparr>ic_name = name a, ic_id = u, ic_platform_info = platform_info st,
             ic_app_name = app_name st\<rparr>]\<rparr>) = Inr msg"
        by simp
      from Cons.IH [OF this] Some u True show ?thesis by auto
    next
      case False
      with Cons.prems Some u have
        "publish_loop UUID ms (acc\<lparr>idle_clients := idle_clients acc @
           [\<lparr>ic_name = name a, ic_id = u, ic_platform_info = platform_info st,
             ic_app_name = ''''\<rparr>]\<rparr>) = Inr msg"
        by simp
      from Cons.IH [OF this] Some u False show ?thesis by auto
    qed
  qed
qed

lemma publish_loop_length:
  "publish_loop UUID ms acc = Inr msg \<Longrightarrow>
   length (running_clients msg) = length (running_clients acc) + length (filter reports_running ms) \<and>
   length (idle_clients msg) = length (idle_clients acc) + length (filter reports_idle ms)"
proof (induction ms arbitrary: acc)
  case Nil
  then show ?case by simp
next
  case (Cons a ms)
  then show ?case
    by (cases "status a")
       (auto simp: reports_running_def reports_idle_def Let_def split: option.splits if_splits)
qed

lemma publish_loop_parsed:
  "publish_loop UUID ms acc = Inr msg \<Longrightarrow> m \<in> set ms \<Longrightarrow> status m = Some st \<Longrightarrow>
   \<exists>u. UUID (uuid st) = Some u"
proof (induction ms arbitrary: acc)
  case Nil
  then show ?case by simp
next
  case (Cons a ms)
  then show ?case
    by (cases "status a") (auto simp: Let_def split: option.splits if_splits)
qed

lemma publish_loop_unknown:
  "status m = None \<Longrightarrow> publish_loop UUID (ms1 @ m # ms2) acc = publish_loop UUID (ms1 @ ms2) acc"
  by (induction ms1 arbitrary: acc) (auto simp: Let_def split: option.splits)

lemma publish_loop_returns:
  "(\<forall>m \<in> set ms. \<forall>st. status m = Some st \<longrightarrow> UUID (uuid st) \<noteq> None) \<Longrightarrow>
   \<exists>msg. publish_loop UUID ms acc = Inr msg"
  by (induction ms arbitrary: acc) (auto simp: Let_def split: option.splits)

section \<open>A round returns\<close>

lemma set_update_subset: "set (AList.update k v al) \<subseteq> insert (k, v) (set al)"
  by (induction al) auto

lemma set_delete_subset: "set (AList.delete k al) \<subseteq> set al"
  by (auto simp: AList.delete_eq)

lemma uuids_well_formed_update:
  "uuids_well_formed UUID self \<Longrightarrow>
   uuids_well_formed UUID
     (self\<lparr>remocon_monitors := AList.update t (RemoconMonitor t) (remocon_monitors self)\<rparr>)"
  using set_update_subset [of t "RemoconMonitor t" "remocon_monitors self"]
  by (fastforce simp: uuids_well_formed_def RemoconMonitor_def)

lemma uuids_well_formed_delete:
  "uuids_well_formed UUID self \<Longrightarrow>
   uuids_well_formed UUID (self\<lparr>remocon_monitors := AList.delete t (remocon_monitors self)\<rparr>)"
  using set_delete_subset [of t "remocon_monitors self"]
  by (fastforce simp: uuids_well_formed_def)

lemma publish_returns:
  "uuids_well_formed UUID self \<Longrightarrow> \<exists>msg. ros_publish_interactive_clients UUID self = Inr msg"
  unfolding ros_publish_interactive_clients_def uuids_well_formed_def
  by (rule publish_loop_returns)

lemma new_loop_returns:
  "uuids_well_formed UUID self \<Longrightarrow>
   \<exists>self' evs. new_loop UUID ts self = Inr (self', evs) \<and> uuids_well_formed UUID self'"
proof (induction ts arbitrary: self)
  case Nil
  then show ?case by simp
next
  case (Cons t ts)
  let ?self1 = "self\<lparr>remocon_monitors := AList.update t (RemoconMonitor t) (remocon_monitors self)\<rparr>"
  have w: "uuids_well_formed UUID ?self1"
    by (rule uuids_well_formed_update [OF Cons.prems])
  from publish_returns [OF w] obtain msg where
    p: "ros_publish_interactive_clients UUID ?self1 = Inr msg" ..
  from Cons.IH [OF w] obtain self' evs where
    "new_loop UUID ts ?self1 = Inr (self', evs)" "uuids_well_formed UUID self'" by blast
  with p show ?case by (simp add: Let_def)
qed

lemma lost_loop_returns:
  "uuids_well_formed UUID self \<Longrightarrow> distinct ts \<Longrightarrow>
   set ts \<subseteq> set (map fst (remocon_monitors self)) \<Longrightarrow>
   \<exists>self' evs. lost_loop UUID ts self = Inr (self', evs) \<and> uuids_well_formed UUID self'"
proof (induction ts arbitrary: self)
  case Nil
  then show ?case by simp
next
  case (Cons t ts)
  let ?self1 = "self\<lparr>remocon_monitors := AList.delete t (remocon_monitors self)\<rparr>"
  from Cons.prems(3) have "map_of (remocon_monitors self) t \<noteq> None"
    by (simp add: map_of_eq_None_iff)
  then obtain remocon where m: "map_of (remocon_monitors self) t = Some remocon" by blast
  have w: "uuids_well_formed UUID ?self1"
    by (rule uuids_well_formed_delete [OF Cons.prems(1)])
  from publish_returns [OF w] obtain msg where
    p: "ros_publish_interactive_clients UUID ?self1 = Inr msg" ..
  have "set ts \<subseteq> set (map fst (remocon_monitors ?self1))"
    using Cons.prems(2,3) by (auto simp: delete_keys)
  with Cons.IH [OF w] Cons.prems(2) obtain self' evs where
    "lost_loop UUID ts ?self1 = Inr (self', evs)" "uuids_well_formed UUID self'" by auto
  with m p show ?case by (simp add: Let_def)
qed

lemma distinct_diff: "distinct l1 \<Longrightarrow> distinct (diff l1 l2)"
  by (simp add: diff_def)

lemma spin_once_returns:
  assumes "uuids_well_formed UUID self" and "distinct (map fst (remocon_monitors self))"
  shows "\<exists>self' evs. spin_once UUID reply self = Inr (self', evs) \<and>
           uuids_well_formed UUID self' \<and> distinct (map fst (remocon_monitors self'))"
proof (cases reply)
  case (Topics published)
  let ?listed = "map fst published" and ?keys = "map fst (remocon_monitors self)"
  from new_loop_returns [OF assms(1)] obtain self1 evs1 where
    n: "new_loop UUID (diff ?listed ?keys) self = Inr (self1, evs1)" and
    w1: "uuids_well_formed UUID self1" by blast
  have "set (map fst (remocon_monitors self1)) = dom (map_of (remocon_monitors self1))"
    by (simp add: dom_map_of_conv_image_fst)
  also have "\<dots> \<supseteq> dom (map_of (remocon_monitors self))"
    using new_loop_map_of [OF n] by (auto simp: dom_def)
  finally have "set (diff ?keys ?listed) \<subseteq> set (map fst (remocon_monitors self1))"
    by (auto simp: set_diff dom_map_of_conv_image_fst)
  with lost_loop_returns [OF w1 distinct_diff [OF assms(2)]] obtain self' evs2 where
    l: "lost_loop UUID (diff ?keys ?listed) self1 = Inr (self', evs2)" and
    w2: "uuids_well_formed UUID self'" by blast
  have "distinct (map fst (remocon_monitors self'))"
    by (rule lost_loop_distinct [OF l new_loop_distinct [OF n assms(2)]])
  with n l w2 Topics show ?thesis by (simp add: spin_once_def)
next
  case Master_Error
  with assms show ?thesis by (simp add: spin_once_def)
next
  case Master_Failure
  with assms show ?thesis by (simp add: spin_once_def)
qed

lemma spin_returns:
  "uuids_well_formed UUID self \<Longrightarrow> distinct (map fst (remocon_monitors self)) \<Longrightarrow>
   \<exists>self' evs. spin UUID replies self = Inr (self', evs)"
proof (induction replies arbitrary: self)
  case Nil
  then show ?case by simp
next
  case (Cons reply replies)
  from spin_once_returns [OF Cons.prems, of reply] obtain self1 evs1 where
    s: "spin_once UUID reply self = Inr (self1, evs1)" and
    w: "uuids_well_formed UUID self1" "distinct (map fst (remocon_monitors self1))" by blast
  from Cons.IH [OF w] obtain self' evs where "spin UUID replies self1 = Inr (self', evs)"
    by blast
  with s show ?case by simp
qed

section \<open>One round against a listing\<close>

lemma spin_once_map_of:
  assumes "spin_once UUID (Topics published) self = Inr (self', evs)"
  shows "map_of (remocon_monitors self') t =
     (if t \<in> set (map fst published)
      then (if t \<in> set (map fst (remocon_monitors self))
            then map_of (remocon_monitors self) t else Some (RemoconMonitor t))
      else None)"
proof -
  let ?listed = "map fst published" and ?keys = "map fst (remocon_monitors self)"
  from assms obtain self1 evs1 evs2 where
    n: "new_loop UUID (diff ?listed ?keys) self = Inr (self1, evs1)" and
    l: "lost_loop UUID (diff ?keys ?listed) self1 = Inr (self', evs2)"
    by (auto simp: spin_once_def Let_def split: sum.splits prod.splits)
  have k: "t \<notin> set ?keys \<Longrightarrow> map_of (remocon_monitors self) t = None"
    by (simp add: map_of_eq_None_iff)
  show ?thesis
    using new_loop_map_of [OF n, of t] lost_loop_map_of [OF l, of t] k
    by (auto simp: set_diff)
qed

lemma spin_once_keys:
  assumes "spin_once UUID (Topics published) self = Inr (self', evs)"
  shows "set (map fst (remocon_monitors self')) = set (map fst published)"
proof -
  have "(map_of (remocon_monitors self') t \<noteq> None) = (t \<in> set (map fst published))" for t
  proof (cases "t \<in> set (map fst (remocon_monitors self))")
    case True
    then have "map_of (remocon_monitors self) t \<noteq> None"
      by (simp add: map_of_eq_None_iff)
    with True show ?thesis
      by (simp add: spin_once_map_of [OF assms])
  next
    case False
    then show ?thesis
      by (simp add: spin_once_map_of [OF assms])
  qed
  then have "dom (map_of (remocon_monitors self')) = set (map fst published)"
    by (auto simp: dom_def)
  then show ?thesis by (simp add: dom_map_of_conv_image_fst)
qed

section \<open>The body of the request handler\<close>

lemma role_and_app_table_not_a_slot: "''role_and_app_table'' \<notin> set slots"
  by (simp add: slots_def)

lemma request_interaction_raises:
  "ros_service_request_interaction self request = Inl (AttributeError ''role_and_app_table'')"
  by (simp add: ros_service_request_interaction_def getattr_role_and_app_table_def)

lemma app_loop_None_iff:
  "app_loop apps request = Maximum_quota_None \<longleftrightarrow>
     (\<forall>app \<in> set apps.
        \<not> (ra_name app = application request \<and> ra_namespace app = namespace request))"
  by (induction apps) auto

lemma body_unavailable:
  assumes "\<forall>apps. role_and_app_table (role request) = Some apps \<longrightarrow>
             (\<forall>app \<in> set apps.
                \<not> (ra_name app = application request \<and> ra_namespace app = namespace request))"
  shows "request_interaction_body role_and_app_table self request =
           \<lparr>result = False, error_code = ROLE_APP_UNAVAILABLE,
            message = MSG_ROLE_APP_UNAVAILABLE\<rparr>"
proof (cases "role_and_app_table (role request)")
  case None
  then show ?thesis by (simp add: request_interaction_body_def)
next
  case (Some apps)
  with assms have "app_loop apps request = Maximum_quota_None"
    by (simp add: app_loop_None_iff)
  with Some show ?thesis by (simp add: request_interaction_body_def)
qed

lemma body_granted:
  assumes "role_and_app_table (role request) = Some apps"
    and "app \<in> set apps"
    and "ra_name app = application request" and "ra_namespace app = namespace request"
  shows "request_interaction_body role_and_app_table self request =
           \<lparr>result = True, error_code = SUCCESS, message = No_message\<rparr>"
proof -
  from assms(2-4) have "app_loop apps request \<noteq> Maximum_quota_None"
    by (auto simp: app_loop_None_iff)
  with assms(1) show ?thesis
    by (cases "app_loop apps request")
       (simp_all add: request_interaction_body_def)
qed

lemma body_never_quota_reached:
  "error_code (request_interaction_body role_and_app_table self request)
     \<noteq> ROLE_APP_QUOTA_REACHED"
proof (cases "role_and_app_table (role request)")
  case None
  then show ?thesis by (simp add: request_interaction_body_def)
next
  case (Some apps)
  then show ?thesis
    by (cases "app_loop apps request") (simp_all add: request_interaction_body_def)
qed

lemma count_loop_eq:
  "count_loop ms request count =
     count + length (filter (\<lambda>m. case status m of None \<Rightarrow> False
                     | Some st \<Rightarrow> running_app st \<and> app_name st = application request) ms)"
  by (induction ms arbitrary: count) (auto split: option.splits)

lemma set_interactions_rejected:
  assumes "load request" and "i \<in> set (interactions request)" and "\<not> valid i"
  shows "ros_service_set_interactions valid self request =
           Inl (TypeError ''str object is not callable'')"
proof -
  from assms(2,3) have "filter (\<lambda>i. \<not> valid i) (interactions request) \<noteq> []"
    by (auto simp: filter_empty_conv)
  with assms(1) show ?thesis
    by (auto simp: ros_service_set_interactions_def table_load_def Let_def split: list.splits)
qed

section \<open>Reconciliation of the monitors with the listing\<close>

text \<open>
  Every sequence of listings: whatever rounds came before, when the last round of the
  loop got a listing and the loop returned, the topics of the monitors are those of that
  listing.
\<close>

lemma spin_tracks_last_listing:
  "spin UUID (replies @ [Topics published]) self = Inr (self', evs) \<Longrightarrow>
   set (map fst (remocon_monitors self')) = set (map fst published)"
proof (induction replies arbitrary: self evs)
  case Nil
  then obtain evs1 where "spin_once UUID (Topics published) self = Inr (self', evs1)"
    by (auto split: sum.splits prod.splits)
  then show ?case by (rule spin_once_keys)
next
  case (Cons reply replies)
  then obtain self1 evs2 where
    "spin UUID (replies @ [Topics published]) self1 = Inr (self', evs2)"
    by (auto split: sum.splits prod.splits)
  then show ?case by (rule Cons.IH)
qed

text \<open>
  Claim C5, as amended. A round that gets a listing and completes publishes the
  interactive clients once for each new topic and once for each lost topic: the call sits
  inside both loops, lines 83 and 88. The number of publications of the round is the
  number of new topics plus the number of lost topics, so it is one only when one topic
  changed.
\<close>

theorem spin_once_publishes_per_topic:
  assumes "spin_once UUID (Topics published) self = Inr (self', evs)"
  shows "length (publications evs) =
           length (diff (map fst published) (map fst (remocon_monitors self)))
         + length (diff (map fst (remocon_monitors self)) (map fst published))"
proof -
  let ?listed = "map fst published" and ?keys = "map fst (remocon_monitors self)"
  from assms obtain self1 evs1 evs2 where
    n: "new_loop UUID (diff ?listed ?keys) self = Inr (self1, evs1)" and
    l: "lost_loop UUID (diff ?keys ?listed) self1 = Inr (self', evs2)" and
    e: "evs = evs1 @ evs2"
    by (auto simp: spin_once_def Let_def split: sum.splits prod.splits)
  show ?thesis
    using new_loop_publications [OF n] lost_loop_publications [OF l] e
    by (simp add: publications_append)
qed

text \<open>
  The round for claim C5 at a concrete input: one topic arrives, one leaves, two
  publications.
\<close>

theorem spin_once_publishes_per_topic_witness:
  "spin_once UUID32 (Topics [(''/remocons/a'', ''concert_msgs/RemoconStatus'')])
     \<lparr>interactions_table = [],
      remocon_monitors = [(''/remocons/c'', \<lparr>name = ''/remocons/c'', status = None\<rparr>)]\<rparr>
   = Inr (\<lparr>interactions_table = [],
           remocon_monitors = [(''/remocons/a'', \<lparr>name = ''/remocons/a'', status = None\<rparr>)]\<rparr>,
          [Subscribe ''/remocons/a'', Publish \<lparr>running_clients = [], idle_clients = []\<rparr>,
           Loginfo_new_remocon ''/remocons/a'',
           Unregister ''/remocons/c'', Publish \<lparr>running_clients = [], idle_clients = []\<rparr>,
           Loginfo_remocon_left ''/remocons/c''])
   \<and> length (publications
        [Subscribe ''/remocons/a'', Publish \<lparr>running_clients = [], idle_clients = []\<rparr>,
         Loginfo_new_remocon ''/remocons/a'',
         Unregister ''/remocons/c'',
         Publish \<lparr>running_clients = [], idle_clients = [] :: string interactive_client list\<rparr>,
         Loginfo_remocon_left ''/remocons/c'']) = 2"
  (is "?h \<and> _")
proof -
  have h: ?h
    by (simp add: spin_once_def diff_def ros_publish_interactive_clients_def RemoconMonitor_def
        AList.delete_eq)
  show ?thesis using h spin_once_publishes_per_topic [OF h] by (simp add: diff_def)
qed

text \<open>
  Claim C5 as stated fails: from the empty dictionary, a listing of two topics makes the
  round publish twice.
\<close>

theorem spin_once_two_publications:
  "spin_once UUID32
     (Topics [(''/remocons/a'', ''concert_msgs/RemoconStatus''),
              (''/remocons/b'', ''concert_msgs/RemoconStatus'')])
     \<lparr>interactions_table = [], remocon_monitors = []\<rparr>
   = Inr (\<lparr>interactions_table = [],
           remocon_monitors = [(''/remocons/a'', \<lparr>name = ''/remocons/a'', status = None\<rparr>),
                               (''/remocons/b'', \<lparr>name = ''/remocons/b'', status = None\<rparr>)]\<rparr>,
          [Subscribe ''/remocons/a'', Publish \<lparr>running_clients = [], idle_clients = []\<rparr>,
           Loginfo_new_remocon ''/remocons/a'',
           Subscribe ''/remocons/b'', Publish \<lparr>running_clients = [], idle_clients = []\<rparr>,
           Loginfo_new_remocon ''/remocons/b''])
   \<and> length (publications (snd (projr (spin_once UUID32
        (Topics [(''/remocons/a'', ''concert_msgs/RemoconStatus''),
                 (''/remocons/b'', ''concert_msgs/RemoconStatus'')])
        \<lparr>interactions_table = [], remocon_monitors = []\<rparr>)))) = 2"
  by (simp add: spin_once_def diff_def ros_publish_interactive_clients_def RemoconMonitor_def)

text \<open>
  Claim C6. When a round with a listing has completed, a second round with the same
  listing returns the same manager, the dictionary of monitors included, and leaves no
  event behind: no publication, no subscription, no log line.
\<close>

theorem spin_once_idempotent:
  assumes "spin_once UUID (Topics published) self = Inr (self', evs)"
  shows "spin_once UUID (Topics published) self' = Inr (self', [])"
proof -
  have k: "set (map fst (remocon_monitors self')) = set (map fst published)"
    by (rule spin_once_keys [OF assms])
  have "diff (map fst published) (map fst (remocon_monitors self')) = []"
       "diff (map fst (remocon_monitors self')) (map fst published) = []"
    using k by (simp_all only: diff_Nil_iff)
  then show ?thesis by (simp add: spin_once_def)
qed

text \<open>
  Claim C6 at a concrete input: the first round adds a monitor, the second changes
  nothing.
\<close>

theorem spin_once_idempotent_witness:
  "spin_once UUID32 (Topics [(''/remocons/a'', ''concert_msgs/RemoconStatus'')])
     \<lparr>interactions_table = [], remocon_monitors = []\<rparr>
   = Inr (\<lparr>interactions_table = [],
           remocon_monitors = [(''/remocons/a'', \<lparr>name = ''/remocons/a'', status = None\<rparr>)]\<rparr>,
          [Subscribe ''/remocons/a'',
           Publish \<lparr>running_clients = [], idle_clients = [] :: string interactive_client list\<rparr>,
           Loginfo_new_remocon ''/remocons/a''])
   \<and> spin_once UUID32 (Topics [(''/remocons/a'', ''concert_msgs/RemoconStatus'')])
       \<lparr>interactions_table = [],
        remocon_monitors = [(''/remocons/a'', \<lparr>name = ''/remocons/a'', status = None\<rparr>)]\<rparr>
     = Inr (\<lparr>interactions_table = [],
             remocon_monitors = [(''/remocons/a'', \<lparr>name = ''/remocons/a'', status = None\<rparr>)]\<rparr>,
            [])"
  (is "?h \<and> _")
proof -
  have h: ?h
    by (simp add: spin_once_def diff_def ros_publish_interactive_clients_def RemoconMonitor_def)
  show ?thesis using h spin_once_idempotent [OF h] by simp
qed

text \<open>
  Claim C7. After a round with a listing has completed, from any dictionary (so after
  any earlier rounds), the topics of the monitors are exactly the listed topics: a listed
  topic that had no monitor has a fresh one, whose subscription was made; a topic that is
  no longer listed has none, and its monitor was unregistered; a listed topic that had a
  monitor keeps it.
\<close>

theorem spin_once_tracks_listing:
  assumes "spin_once UUID (Topics published) self = Inr (self', evs)"
  shows "set (map fst (remocon_monitors self')) = set (map fst published)
    \<and> (\<forall>t \<in> set (map fst published) - set (map fst (remocon_monitors self)).
          map_of (remocon_monitors self') t = Some (RemoconMonitor t) \<and> Subscribe t \<in> set evs)
    \<and> (\<forall>t \<in> set (map fst (remocon_monitors self)) - set (map fst published).
          map_of (remocon_monitors self') t = None \<and> Unregister t \<in> set evs)
    \<and> (\<forall>t \<in> set (map fst (remocon_monitors self)) \<inter> set (map fst published).
          map_of (remocon_monitors self') t = map_of (remocon_monitors self) t)"
proof -
  let ?listed = "map fst published" and ?keys = "map fst (remocon_monitors self)"
  from assms obtain self1 evs1 evs2 where
    n: "new_loop UUID (diff ?listed ?keys) self = Inr (self1, evs1)" and
    l: "lost_loop UUID (diff ?keys ?listed) self1 = Inr (self', evs2)" and
    e: "evs = evs1 @ evs2"
    by (auto simp: spin_once_def Let_def split: sum.splits prod.splits)
  have 1: "set (map fst (remocon_monitors self')) = set ?listed"
    by (rule spin_once_keys [OF assms])
  have 2: "map_of (remocon_monitors self') t = Some (RemoconMonitor t) \<and> Subscribe t \<in> set evs"
    if "t \<in> set ?listed - set ?keys" for t
    using that new_loop_subscribe [OF n, of t] e
    by (simp add: spin_once_map_of [OF assms] set_diff)
  have 3: "map_of (remocon_monitors self') t = None \<and> Unregister t \<in> set evs"
    if "t \<in> set ?keys - set ?listed" for t
    using that lost_loop_unregister [OF l, of t] e
    by (simp add: spin_once_map_of [OF assms] set_diff)
  have 4: "map_of (remocon_monitors self') t = map_of (remocon_monitors self) t"
    if "t \<in> set ?keys \<inter> set ?listed" for t
    using that by (simp add: spin_once_map_of [OF assms])
  from 1 2 3 4 show ?thesis by blast
qed

text \<open>
  Claim C7 at a concrete input: one topic stays, one arrives, one leaves.
\<close>

theorem spin_once_tracks_listing_witness:
  "spin_once UUID32 (Topics [(''/remocons/a'', ''concert_msgs/RemoconStatus''),
                             (''/remocons/b'', ''concert_msgs/RemoconStatus'')])
     \<lparr>interactions_table = [],
      remocon_monitors =
        [(''/remocons/b'',
          \<lparr>name = ''/remocons/b'',
           status = Some \<lparr>uuid = ''0123456789abcdef0123456789abcdef'', platform_info = ''pc'',
                          running_app = False, app_name = ''''\<rparr>\<rparr>),
         (''/remocons/c'', \<lparr>name = ''/remocons/c'', status = None\<rparr>)]\<rparr>
   = Inr (\<lparr>interactions_table = [],
           remocon_monitors =
             [(''/remocons/b'',
               \<lparr>name = ''/remocons/b'',
                status = Some \<lparr>uuid = ''0123456789abcdef0123456789abcdef'',
                               platform_info = ''pc'', running_app = False, app_name = ''''\<rparr>\<rparr>),
              (''/remocons/a'', \<lparr>name = ''/remocons/a'', status = None\<rparr>)]\<rparr>,
          [Subscribe ''/remocons/a'',
           Publish \<lparr>running_clients = [],
                    idle_clients = [\<lparr>ic_name = ''/remocons/b'',
                                     ic_id = ''0123456789abcdef0123456789abcdef'',
                                     ic_platform_info = ''pc'', ic_app_name = ''''\<rparr>]\<rparr>,
           Loginfo_new_remocon ''/remocons/a'',
           Unregister ''/remocons/c'',
           Publish \<lparr>running_clients = [],
                    idle_clients = [\<lparr>ic_name = ''/remocons/b'',
                                     ic_id = ''0123456789abcdef0123456789abcdef'',
                                     ic_platform_info = ''pc'', ic_app_name = ''''\<rparr>]\<rparr>,
           Loginfo_remocon_left ''/remocons/c''])
   \<and> set (map fst
        [(''/remocons/b'',
          \<lparr>name = ''/remocons/b'',
           status = Some \<lparr>uuid = ''0123456789abcdef0123456789abcdef'', platform_info = ''pc'',
                          running_app = False, app_name = ''''\<rparr>\<rparr>),
         (''/remocons/a'', \<lparr>name = ''/remocons/a'', status = None\<rparr>)])
     = set (map fst [(''/remocons/a'', ''concert_msgs/RemoconStatus''),
                     (''/remocons/b'', ''concert_msgs/RemoconStatus'')])"
  (is "?h \<and> _")
proof -
  have h: ?h
    by (simp add: spin_once_def diff_def ros_publish_interactive_clients_def RemoconMonitor_def
        AList.delete_eq UUID32_def hex_digit_def)
  show ?thesis using h spin_once_tracks_listing [OF h] by auto
qed

text \<open>
  Claim C8. When the call to the master raises either of the two exceptions, the round
  returns (nothing is raised), the manager is as before and the only event is the error
  log line. The loop then sleeps and runs the next round, on the next reply and from the
  same manager: its result is that of \<open>spin_once\<close> on that reply, followed by the rest
  of the loop. When the failed round is the last one before the shutdown, the loop returns
  the manager as it was.
\<close>

theorem spin_once_master_failure:
  "spin_once UUID Master_Error self = Inr (self, [Logerr_master_error])
   \<and> spin_once UUID Master_Failure self = Inr (self, [Logerr_master_failure])
   \<and> spin UUID [Master_Error] self = Inr (self, [Logerr_master_error, Wallsleep])
   \<and> spin UUID [Master_Failure] self = Inr (self, [Logerr_master_failure, Wallsleep])
   \<and> spin UUID (Master_Error # reply # replies) self =
       (case spin_once UUID reply self of
          Inl e \<Rightarrow> Inl e
        | Inr (self1, evs1) \<Rightarrow>
            (case spin UUID replies self1 of
               Inl e \<Rightarrow> Inl e
             | Inr (self2, evs2) \<Rightarrow>
                 Inr (self2, Logerr_master_error # Wallsleep # evs1 @ Wallsleep # evs2)))
   \<and> spin UUID (Master_Failure # reply # replies) self =
       (case spin_once UUID reply self of
          Inl e \<Rightarrow> Inl e
        | Inr (self1, evs1) \<Rightarrow>
            (case spin UUID replies self1 of
               Inl e \<Rightarrow> Inl e
             | Inr (self2, evs2) \<Rightarrow>
                 Inr (self2, Logerr_master_failure # Wallsleep # evs1 @ Wallsleep # evs2)))
   \<and> spin UUID (Master_Error # replies) self =
       map_sum id (\<lambda>(self', evs). (self', Logerr_master_error # Wallsleep # evs))
         (spin UUID replies self)
   \<and> spin UUID (Master_Failure # replies) self =
       map_sum id (\<lambda>(self', evs). (self', Logerr_master_failure # Wallsleep # evs))
         (spin UUID replies self)"
proof -
  have 1: "spin_once UUID Master_Error self = Inr (self, [Logerr_master_error])"
    and 2: "spin_once UUID Master_Failure self = Inr (self, [Logerr_master_failure])"
    by (simp_all add: spin_once_def)
  have 3: "spin UUID (Master_Error # rs) self =
       map_sum id (\<lambda>(self', evs). (self', Logerr_master_error # Wallsleep # evs))
         (spin UUID rs self)" for rs
    by (cases "spin UUID rs self") (auto simp: 1)
  have 4: "spin UUID (Master_Failure # rs) self =
       map_sum id (\<lambda>(self', evs). (self', Logerr_master_failure # Wallsleep # evs))
         (spin UUID rs self)" for rs
    by (cases "spin UUID rs self") (auto simp: 2)
  have 5: "map_sum id (\<lambda>(self', evs). (self', ev # Wallsleep # evs))
             (spin UUID (reply # replies) self) =
       (case spin_once UUID reply self of
          Inl e \<Rightarrow> Inl e
        | Inr (self1, evs1) \<Rightarrow>
            (case spin UUID replies self1 of
               Inl e \<Rightarrow> Inl e
             | Inr (self2, evs2) \<Rightarrow> Inr (self2, ev # Wallsleep # evs1 @ Wallsleep # evs2)))"
    for ev :: "'a event"
    by (auto split: sum.splits prod.splits)
  show ?thesis
    unfolding 3 4 5 using 1 2 by simp
qed

text \<open>
  Claim C8 at a concrete input: the master fails in the first round and lists one topic
  in the second; the second round runs from the empty dictionary and adds the monitor.
\<close>

theorem spin_once_master_failure_witness:
  "spin UUID32 [Master_Error, Topics [(''/remocons/a'', ''concert_msgs/RemoconStatus'')]]
     \<lparr>interactions_table = [], remocon_monitors = []\<rparr>
   = Inr (\<lparr>interactions_table = [],
           remocon_monitors = [(''/remocons/a'', \<lparr>name = ''/remocons/a'', status = None\<rparr>)]\<rparr>,
          [Logerr_master_error, Wallsleep,
           Subscribe ''/remocons/a'', Publish \<lparr>running_clients = [], idle_clients = []\<rparr>,
           Loginfo_new_remocon ''/remocons/a'', Wallsleep])"
proof -
  have h: "spin_once UUID32 (Topics [(''/remocons/a'', ''concert_msgs/RemoconStatus'')])
     \<lparr>interactions_table = [], remocon_monitors = []\<rparr>
   = Inr (\<lparr>interactions_table = [],
           remocon_monitors = [(''/remocons/a'', \<lparr>name = ''/remocons/a'', status = None\<rparr>)]\<rparr>,
          [Subscribe ''/remocons/a'',
           Publish \<lparr>running_clients = [], idle_clients = [] :: string interactive_client list\<rparr>,
           Loginfo_new_remocon ''/remocons/a''])"
    by (simp add: spin_once_def diff_def ros_publish_interactive_clients_def RemoconMonitor_def)
  show ?thesis
    using spin_once_master_failure [of UUID32
        "\<lparr>interactions_table = [], remocon_monitors = []\<rparr>"
        "Topics [(''/remocons/a'', ''concert_msgs/RemoconStatus'')]" "[]"]
    by (simp add: h)
qed

section \<open>The published snapshot\<close>

text \<open>
  Claim C9. In the message handed to the publisher, every monitor with a known status
  has its client in \<open>running_clients\<close>, with the application name of the status, when
  the status reports a running application, and in \<open>idle_clients\<close>, with the empty
  application name, when it does not; every entry of either list comes from such a
  monitor; and each list has as many entries as there are monitors of its kind, so no
  client is listed twice.
\<close>

theorem publish_partitions_clients:
  assumes "ros_publish_interactive_clients UUID self = Inr msg"
  shows "(\<forall>m \<in> set (map snd (remocon_monitors self)). \<forall>st. status m = Some st \<longrightarrow>
            (\<exists>u. UUID (uuid st) = Some u \<and>
               (if running_app st
                then \<lparr>ic_name = name m, ic_id = u, ic_platform_info = platform_info st,
                      ic_app_name = app_name st\<rparr> \<in> set (running_clients msg)
                else \<lparr>ic_name = name m, ic_id = u, ic_platform_info = platform_info st,
                      ic_app_name = ''''\<rparr> \<in> set (idle_clients msg))))
    \<and> (\<forall>c \<in> set (running_clients msg). \<exists>m \<in> set (map snd (remocon_monitors self)).
          \<exists>st. status m = Some st \<and> running_app st \<and> ic_name c = name m
               \<and> ic_platform_info c = platform_info st \<and> UUID (uuid st) = Some (ic_id c)
               \<and> ic_app_name c = app_name st)
    \<and> (\<forall>c \<in> set (idle_clients msg). \<exists>m \<in> set (map snd (remocon_monitors self)).
          \<exists>st. status m = Some st \<and> \<not> running_app st \<and> ic_name c = name m
               \<and> ic_platform_info c = platform_info st \<and> UUID (uuid st) = Some (ic_id c)
               \<and> ic_app_name c = '''')
    \<and> length (running_clients msg)
        = length (filter reports_running (map snd (remocon_monitors self)))
    \<and> length (idle_clients msg)
        = length (filter reports_idle (map snd (remocon_monitors self)))"
proof -
  let ?ms = "map snd (remocon_monitors self)"
  let ?empty = "\<lparr>running_clients = [], idle_clients = []\<rparr> :: 'a interactive_clients"
  from assms have p: "publish_loop UUID ?ms ?empty = Inr msg"
    by (simp add: ros_publish_interactive_clients_def)
  note r = publish_loop_running [OF p] and i = publish_loop_idle [OF p]
  have 1: "\<exists>u. UUID (uuid st) = Some u \<and>
               (if running_app st
                then \<lparr>ic_name = name m, ic_id = u, ic_platform_info = platform_info st,
                      ic_app_name = app_name st\<rparr> \<in> set (running_clients msg)
                else \<lparr>ic_name = name m, ic_id = u, ic_platform_info = platform_info st,
                      ic_app_name = ''''\<rparr> \<in> set (idle_clients msg))"
    if "m \<in> set ?ms" "status m = Some st" for m st
  proof -
    from publish_loop_parsed [OF p that] obtain u where u: "UUID (uuid st) = Some u" ..
    show ?thesis
    proof (cases "running_app st")
      case True
      with that u r show ?thesis by auto
    next
      case False
      with that u i show ?thesis by auto
    qed
  qed
  have 2: "\<exists>m \<in> set ?ms. \<exists>st. status m = Some st \<and> running_app st \<and> ic_name c = name m
               \<and> ic_platform_info c = platform_info st \<and> UUID (uuid st) = Some (ic_id c)
               \<and> ic_app_name c = app_name st"
    if "c \<in> set (running_clients msg)" for c
  proof -
    from that r obtain m st u where
      "m \<in> set ?ms" "status m = Some st" "running_app st" "UUID (uuid st) = Some u"
      "c = \<lparr>ic_name = name m, ic_id = u, ic_platform_info = platform_info st,
            ic_app_name = app_name st\<rparr>"
      by auto
    then show ?thesis by (intro bexI [of _ m] exI [of _ st]) simp_all
  qed
  have 3: "\<exists>m \<in> set ?ms. \<exists>st. status m = Some st \<and> \<not> running_app st \<and> ic_name c = name m
               \<and> ic_platform_info c = platform_info st \<and> UUID (uuid st) = Some (ic_id c)
               \<and> ic_app_name c = ''''"
    if "c \<in> set (idle_clients msg)" for c
  proof -
    from that i obtain m st u where
      "m \<in> set ?ms" "status m = Some st" "\<not> running_app st" "UUID (uuid st) = Some u"
      "c = \<lparr>ic_name = name m, ic_id = u, ic_platform_info = platform_info st,
            ic_app_name = ''''\<rparr>"
      by auto
    then show ?thesis by (intro bexI [of _ m] exI [of _ st]) simp_all
  qed
  from publish_loop_length [OF p] have 4:
    "length (running_clients msg) = length (filter reports_running ?ms)"
    "length (idle_clients msg) = length (filter reports_idle ?ms)"
    by simp_all
  from 1 2 3 4 show ?thesis by blast
qed

text \<open>
  Claim C9 at a concrete input: one running client, one idle client, one monitor with
  no status.
\<close>

theorem publish_partitions_clients_witness:
  "ros_publish_interactive_clients UUID32
     \<lparr>interactions_table = [],
      remocon_monitors =
        [(''/remocons/a'',
          \<lparr>name = ''/remocons/a'',
           status = Some \<lparr>uuid = ''0123456789abcdef0123456789abcdef'', platform_info = ''pc'',
                          running_app = True, app_name = ''chat_app''\<rparr>\<rparr>),
         (''/remocons/b'',
          \<lparr>name = ''/remocons/b'',
           status = Some \<lparr>uuid = ''fedcba9876543210fedcba9876543210'', platform_info = ''tablet'',
                          running_app = False, app_name = ''''\<rparr>\<rparr>),
         (''/remocons/c'', \<lparr>name = ''/remocons/c'', status = None\<rparr>)]\<rparr>
   = Inr \<lparr>running_clients =
            [\<lparr>ic_name = ''/remocons/a'', ic_id = ''0123456789abcdef0123456789abcdef'',
              ic_platform_info = ''pc'', ic_app_name = ''chat_app''\<rparr>],
          idle_clients =
            [\<lparr>ic_name = ''/remocons/b'', ic_id = ''fedcba9876543210fedcba9876543210'',
              ic_platform_info = ''tablet'', ic_app_name = ''''\<rparr>]\<rparr>
   \<and> length (running_clients
        \<lparr>running_clients =
            [\<lparr>ic_name = ''/remocons/a'', ic_id = ''0123456789abcdef0123456789abcdef'',
              ic_platform_info = ''pc'', ic_app_name = ''chat_app''\<rparr>],
          idle_clients =
            [\<lparr>ic_name = ''/remocons/b'', ic_id = ''fedcba9876543210fedcba9876543210'',
              ic_platform_info = ''tablet'', ic_app_name = ''''\<rparr>]\<rparr>) = 1"
  (is "?h \<and> _")
proof -
  have h: ?h
    by (simp add: ros_publish_interactive_clients_def UUID32_def hex_digit_def)
  show ?thesis using h publish_partitions_clients [OF h] by simp
qed

text \<open>
  Claim C10. A monitor whose status is still \<open>None\<close> contributes nothing: the message
  is the one that would be published if the monitor were not in the dictionary.
\<close>

theorem publish_omits_unknown_status:
  assumes "status m = None"
  shows "ros_publish_interactive_clients UUID (self\<lparr>remocon_monitors := ms1 @ (t, m) # ms2\<rparr>)
       = ros_publish_interactive_clients UUID (self\<lparr>remocon_monitors := ms1 @ ms2\<rparr>)"
  using publish_loop_unknown [OF assms, of UUID "map snd ms1" "map snd ms2"]
  by (simp add: ros_publish_interactive_clients_def)

text \<open>
  Claim C10 at a concrete input: the message holds the running client only.
\<close>

theorem publish_omits_unknown_status_witness:
  "status \<lparr>name = ''/remocons/c'', status = None\<rparr> = None
   \<and> ros_publish_interactive_clients UUID32
       (\<lparr>interactions_table = [], remocon_monitors = []\<rparr>
        \<lparr>remocon_monitors :=
           [(''/remocons/a'',
             \<lparr>name = ''/remocons/a'',
              status = Some \<lparr>uuid = ''0123456789abcdef0123456789abcdef'', platform_info = ''pc'',
                             running_app = True, app_name = ''chat_app''\<rparr>\<rparr>)]
           @ (''/remocons/c'', \<lparr>name = ''/remocons/c'', status = None\<rparr>) # []\<rparr>)
     = Inr \<lparr>running_clients =
              [\<lparr>ic_name = ''/remocons/a'', ic_id = ''0123456789abcdef0123456789abcdef'',
                ic_platform_info = ''pc'', ic_app_name = ''chat_app''\<rparr>],
            idle_clients = []\<rparr>"
  (is "?h \<and> _")
proof -
  have h: ?h by simp
  show ?thesis
    using h publish_omits_unknown_status [OF h, where UUID = UUID32
        and self = "\<lparr>interactions_table = [], remocon_monitors = []\<rparr>"
        and ?ms1.0 = "[(''/remocons/a'',
             \<lparr>name = ''/remocons/a'',
              status = Some \<lparr>uuid = ''0123456789abcdef0123456789abcdef'', platform_info = ''pc'',
                             running_app = True, app_name = ''chat_app''\<rparr>\<rparr>)]"
        and t = "''/remocons/c''" and ?ms2.0 = "[]"]
    by (simp add: ros_publish_interactive_clients_def UUID32_def hex_digit_def)
qed

section \<open>The request handlers at concrete inputs\<close>

text \<open>
  Claim C1 says that a request is denied with \<open>ROLE_APP_QUOTA_REACHED\<close> when the
  count of running clients has reached the maximum. The handler raises
  \<^verbatim>\<open>AttributeError\<close> instead; and the rest of the method, run on a table that holds
  the application with maximum 1 while one client runs it, grants the request, because
  line 225 compares the count with the builtin \<^verbatim>\<open>max\<close>.
\<close>

theorem request_interaction_quota_raises:
  "ros_service_request_interaction
     \<lparr>interactions_table =
        [\<lparr>i_display_name = ''Chat'', i_name = ''chat_app'', i_role = ''operator'',
          i_namespace = ''/chat'', i_max = 1\<rparr>],
      remocon_monitors =
        [(''/remocons/a'',
          \<lparr>name = ''/remocons/a'',
           status = Some \<lparr>uuid = ''0123456789abcdef0123456789abcdef'', platform_info = ''pc'',
                          running_app = True, app_name = ''chat_app''\<rparr>\<rparr>)]\<rparr>
     \<lparr>role = ''operator'', application = ''chat_app'', namespace = ''/chat''\<rparr>
   = Inl (AttributeError ''role_and_app_table'')
   \<and> request_interaction_body
       [''operator'' \<mapsto> [\<lparr>ra_name = ''chat_app'', ra_namespace = ''/chat'', ra_max = 1\<rparr>]]
       \<lparr>interactions_table =
          [\<lparr>i_display_name = ''Chat'', i_name = ''chat_app'', i_role = ''operator'',
            i_namespace = ''/chat'', i_max = 1\<rparr>],
        remocon_monitors =
          [(''/remocons/a'',
            \<lparr>name = ''/remocons/a'',
             status = Some \<lparr>uuid = ''0123456789abcdef0123456789abcdef'', platform_info = ''pc'',
                            running_app = True, app_name = ''chat_app''\<rparr>\<rparr>)]\<rparr>
       \<lparr>role = ''operator'', application = ''chat_app'', namespace = ''/chat''\<rparr>
     = \<lparr>result = True, error_code = SUCCESS, message = No_message\<rparr>"
  by (simp add: ros_service_request_interaction_def getattr_role_and_app_table_def
      request_interaction_body_def)

text \<open>
  Claim C2 says that a request that matches nothing is answered with
  \<open>ROLE_APP_UNAVAILABLE\<close> and that nothing is raised. The handler raises
  \<^verbatim>\<open>AttributeError\<close>.
\<close>

theorem request_interaction_unavailable_raises:
  "ros_service_request_interaction
     \<lparr>interactions_table = [], remocon_monitors = []\<rparr>
     \<lparr>role = ''operator'', application = ''chat_app'', namespace = ''/chat''\<rparr>
   = Inl (AttributeError ''role_and_app_table'')"
  by (simp add: ros_service_request_interaction_def getattr_role_and_app_table_def)

text \<open>
  Claim C3 says that a request for an interaction of maximum 0 is granted. The handler
  raises \<^verbatim>\<open>AttributeError\<close>.
\<close>

theorem request_interaction_unlimited_raises:
  "ros_service_request_interaction
     \<lparr>interactions_table =
        [\<lparr>i_display_name = ''Chat'', i_name = ''chat_app'', i_role = ''operator'',
          i_namespace = ''/chat'', i_max = 0\<rparr>],
      remocon_monitors = []\<rparr>
     \<lparr>role = ''operator'', application = ''chat_app'', namespace = ''/chat''\<rparr>
   = Inl (AttributeError ''role_and_app_table'')"
  by (simp add: ros_service_request_interaction_def getattr_role_and_app_table_def)

text \<open>
  Claim C4 says that no request operation lets an exception escape. Loading a list with
  a definition that the table rejects raises \<^verbatim>\<open>TypeError\<close>, and every
  \<^verbatim>\<open>request_interaction\<close> raises \<^verbatim>\<open>AttributeError\<close>.
\<close>

theorem set_interactions_rejected_raises:
  "ros_service_set_interactions (\<lambda>i. i_name i \<noteq> '''')
     \<lparr>interactions_table = [], remocon_monitors = []\<rparr>
     \<lparr>interactions =
        [\<lparr>i_display_name = ''Chat'', i_name = '''', i_role = ''operator'',
          i_namespace = ''/chat'', i_max = 1\<rparr>],
      load = True\<rparr>
   = Inl (TypeError ''str object is not callable'')
   \<and> ros_service_request_interaction
       \<lparr>interactions_table = [], remocon_monitors = []\<rparr>
       \<lparr>role = ''guest'', application = ''teleop'', namespace = ''/''\<rparr>
     = Inl (AttributeError ''role_and_app_table'')"
  by (simp add: ros_service_set_interactions_def table_load_def
      ros_service_request_interaction_def getattr_role_and_app_table_def)

end
